theory Spec2Isabelle
  imports Main "HOL-Library.Multiset" "HOL-Library.AList"
begin

section \<open>Python strings and the regular expressions of the diff parser\<close>

text \<open>
  A Python \<open>str\<close> is modelled as a \<open>string\<close>: one \<open>char\<close> per code point, code points
  below 256. The classification functions below are Python's, restricted to that range:
  \<open>\d\<close> matches exactly \<open>0\<close>..\<open>9\<close> there, \<open>str.isspace\<close> holds for
  9..13, 28..32, 133 and 160, and \<open>str.lower\<close> moves \<open>A\<close>..\<open>Z\<close> and the upper-case
  letters 192..222 (except 215) by 32.
\<close>

datatype error = ValueError string | KeyError string

definition bind_err :: "error + 'a \<Rightarrow> ('a \<Rightarrow> error + 'b) \<Rightarrow> error + 'b" where
  "bind_err r f = (case r of Inl e \<Rightarrow> Inl e | Inr v \<Rightarrow> f v)"

definition isdigit :: "char \<Rightarrow> bool" where
  "isdigit c = (let n = (of_char c :: nat) in 48 \<le> n \<and> n \<le> 57)"

definition isspace :: "char \<Rightarrow> bool" where
  "isspace c = (let n = (of_char c :: nat) in
     (9 \<le> n \<and> n \<le> 13) \<or> (28 \<le> n \<and> n \<le> 32) \<or> n = 133 \<or> n = 160)"

definition upper_chars :: "char list" where
  "upper_chars = ''ABCDEFGHIJKLMNOPQRSTUVWXYZ'' @
     [CHR 0xC0, CHR 0xC1, CHR 0xC2, CHR 0xC3, CHR 0xC4, CHR 0xC5, CHR 0xC6, CHR 0xC7,
      CHR 0xC8, CHR 0xC9, CHR 0xCA, CHR 0xCB, CHR 0xCC, CHR 0xCD, CHR 0xCE, CHR 0xCF,
      CHR 0xD0, CHR 0xD1, CHR 0xD2, CHR 0xD3, CHR 0xD4, CHR 0xD5, CHR 0xD6,
      CHR 0xD8, CHR 0xD9, CHR 0xDA, CHR 0xDB, CHR 0xDC, CHR 0xDD, CHR 0xDE]"

definition lower_chars :: "char list" where
  "lower_chars = ''abcdefghijklmnopqrstuvwxyz'' @
     [CHR 0xE0, CHR 0xE1, CHR 0xE2, CHR 0xE3, CHR 0xE4, CHR 0xE5, CHR 0xE6, CHR 0xE7,
      CHR 0xE8, CHR 0xE9, CHR 0xEA, CHR 0xEB, CHR 0xEC, CHR 0xED, CHR 0xEE, CHR 0xEF,
      CHR 0xF0, CHR 0xF1, CHR 0xF2, CHR 0xF3, CHR 0xF4, CHR 0xF5, CHR 0xF6,
      CHR 0xF8, CHR 0xF9, CHR 0xFA, CHR 0xFB, CHR 0xFC, CHR 0xFD, CHR 0xFE]"

definition lower_char :: "char \<Rightarrow> char" where
  "lower_char c = (case map_of (zip upper_chars lower_chars) c of None \<Rightarrow> c | Some d \<Rightarrow> d)"

text \<open>\<open>s.lower()\<close>, \<open>s.strip()\<close>, \<open>s.startswith(p)\<close>, \<open>s.endswith(p)\<close>,
  \<open>s.split('\n')\<close> and \<open>'\n'.join(xs)\<close>.\<close>

definition lower :: "string \<Rightarrow> string" where
  "lower s = map lower_char s"

definition strip :: "string \<Rightarrow> string" where
  "strip s = rev (dropWhile isspace (rev (dropWhile isspace s)))"

definition startswith :: "string \<Rightarrow> string \<Rightarrow> bool" where
  "startswith s p = (take (length p) s = p)"

definition endswith :: "string \<Rightarrow> string \<Rightarrow> bool" where
  "endswith s p = (length p \<le> length s \<and> drop (length s - length p) s = p)"

fun split_nl :: "string \<Rightarrow> string list" where
  "split_nl [] = [[]]"
| "split_nl (c # cs) =
     (if c = CHR 0x0A then [] # split_nl cs
      else (case split_nl cs of [] \<Rightarrow> [[c]] | l # ls \<Rightarrow> (c # l) # ls))"

fun join_nl :: "string list \<Rightarrow> string" where
  "join_nl [] = []"
| "join_nl [x] = x"
| "join_nl (x # y # ys) = x @ CHR 0x0A # join_nl (y # ys)"

text \<open>
  \<open>int(s)\<close> on a string of decimal digits. The parser applies \<open>int\<close> only to groups
  matched by \<open>\d+\<close>; on any other string the model raises, which is at least as strict as
  Python. Python's integers are unbounded, and so is \<open>int\<close> here (the interpreter's
  optional cap on the number of digits of a conversion is a setting of the runtime, not of
  this program, and is not modelled).
\<close>

definition digit_val :: "char \<Rightarrow> int" where
  "digit_val c = int (of_char c) - 48"

definition decimal :: "string \<Rightarrow> int" where
  "decimal s = foldl (\<lambda>a c. 10 * a + digit_val c) 0 s"

definition py_int :: "string \<Rightarrow> error + int" where
  "py_int s = (if s \<noteq> [] \<and> list_all isdigit s then Inr (decimal s)
               else Inl (ValueError ''invalid literal for int()''))"

text \<open>
  The patterns compiled in \<open>DiffParser.__init__\<close>, each as the function
  \<open>pattern.match(line)\<close> from a line to its groups. Lines come from \<open>split('\n')\<close> and
  hold no newline, so \<open>.\<close> matches every character and \<open>$\<close> only the end.

  \<open>^diff --git a/(.+) b/(.+)$\<close>: the first group is greedy, so the line is cut at the last
  \<open>" b/"\<close> that leaves both groups non-empty.
\<close>

fun split_paths :: "string \<Rightarrow> (string \<times> string) option" where
  "split_paths [] = None"
| "split_paths (c # cs) =
     (case split_paths cs of
        Some (p, q) \<Rightarrow> Some (c # p, q)
      | None \<Rightarrow> (if startswith cs '' b/'' \<and> drop 3 cs \<noteq> [] then Some ([c], drop 3 cs)
                 else None))"

definition file_header_pattern :: "string \<Rightarrow> (string \<times> string) option" where
  "file_header_pattern line =
     (if startswith line ''diff --git a/'' then split_paths (drop 13 line) else None)"

text \<open>\<open>^new file mode \d+$\<close> and \<open>^deleted file mode \d+$\<close>.\<close>

definition new_file_mode_pattern :: "string \<Rightarrow> bool" where
  "new_file_mode_pattern line =
     (startswith line ''new file mode '' \<and> drop 14 line \<noteq> [] \<and> list_all isdigit (drop 14 line))"

definition deleted_file_mode_pattern :: "string \<Rightarrow> bool" where
  "deleted_file_mode_pattern line =
     (startswith line ''deleted file mode '' \<and> drop 18 line \<noteq> []
        \<and> list_all isdigit (drop 18 line))"

text \<open>\<open>^rename from (.+)$\<close> and \<open>^rename to (.+)$\<close>.\<close>

definition rename_from_pattern :: "string \<Rightarrow> string option" where
  "rename_from_pattern line =
     (if startswith line ''rename from '' \<and> drop 12 line \<noteq> [] then Some (drop 12 line)
      else None)"

definition rename_to_pattern :: "string \<Rightarrow> string option" where
  "rename_to_pattern line =
     (if startswith line ''rename to '' \<and> drop 10 line \<noteq> [] then Some (drop 10 line)
      else None)"

text \<open>
  \<open>^@@ -(\d+)(?:,(\d+))? \+(\d+)(?:,(\d+))? @@(.*)$\<close>. A run of digits is always followed
  by a literal that is no digit, so \<open>\d+\<close> takes the whole run and no backtracking finds
  another match. The optional group \<open>(?:,(\d+))?\<close> is taken when a comma and a digit follow.
\<close>

definition opt_count :: "string \<Rightarrow> string option \<times> string" where
  "opt_count r =
     (case r of
        [] \<Rightarrow> (None, r)
      | c # r' \<Rightarrow>
          (if c = CHR '','' \<and> takeWhile isdigit r' \<noteq> []
           then (Some (takeWhile isdigit r'), dropWhile isdigit r')
           else (None, r)))"

definition hunk_header_pattern ::
  "string \<Rightarrow> (string \<times> string option \<times> string \<times> string option \<times> string) option" where
  "hunk_header_pattern line =
     (if startswith line ''@@ -'' then
        (let r0 = drop 4 line; g1 = takeWhile isdigit r0 in
         if g1 = [] then None
         else
           (let (g2, r2) = opt_count (dropWhile isdigit r0) in
            if startswith r2 '' +'' then
              (let r3 = drop 2 r2; g3 = takeWhile isdigit r3 in
               if g3 = [] then None
               else
                 (let (g4, r5) = opt_count (dropWhile isdigit r3) in
                  if startswith r5 '' @@'' then Some (g1, g2, g3, g4, drop 3 r5) else None))
            else None))
      else None)"

section \<open>The diff parser (app/services/diff\_parser.py)\<close>

record ChangedLine =
  line_number :: int
  content :: string
  change_type :: string
  original_line_number :: "int option"

record DiffHunk =
  old_start :: int
  old_count :: int
  new_start :: int
  new_count :: int
  header :: string
  lines :: "ChangedLine list"

record FileDiff =
  file_path :: string
  old_path :: "string option"
  new_path :: "string option"
  is_new_file :: bool
  is_deleted_file :: bool
  is_renamed :: bool
  language :: "string option"
  hunks :: "DiffHunk list"
  additions :: int
  deletions :: int

definition get_all_changed_lines :: "FileDiff \<Rightarrow> ChangedLine list" where
  "get_all_changed_lines fd = concat (map lines (hunks fd))"

definition get_additions :: "FileDiff \<Rightarrow> ChangedLine list" where
  "get_additions fd = filter (\<lambda>l. change_type l = ''addition'') (get_all_changed_lines fd)"

definition get_deletions :: "FileDiff \<Rightarrow> ChangedLine list" where
  "get_deletions fd = filter (\<lambda>l. change_type l = ''deletion'') (get_all_changed_lines fd)"

definition LANGUAGE_MAP :: "(string \<times> string) list" where
  "LANGUAGE_MAP =
    [(''.py'', ''python''), (''.js'', ''javascript''), (''.ts'', ''typescript''),
     (''.tsx'', ''typescript''), (''.jsx'', ''javascript''), (''.java'', ''java''),
     (''.go'', ''go''), (''.rs'', ''rust''), (''.rb'', ''ruby''), (''.php'', ''php''),
     (''.c'', ''c''), (''.cpp'', ''cpp''), (''.h'', ''c''), (''.hpp'', ''cpp''),
     (''.cs'', ''csharp''), (''.swift'', ''swift''), (''.kt'', ''kotlin''),
     (''.scala'', ''scala''), (''.r'', ''r''), (''.sql'', ''sql''), (''.sh'', ''bash''),
     (''.bash'', ''bash''), (''.zsh'', ''zsh''), (''.yml'', ''yaml''), (''.yaml'', ''yaml''),
     (''.json'', ''json''), (''.xml'', ''xml''), (''.html'', ''html''), (''.css'', ''css''),
     (''.scss'', ''scss''), (''.sass'', ''sass''), (''.less'', ''less''),
     (''.md'', ''markdown''), (''.rst'', ''restructuredtext''), (''.vue'', ''vue''),
     (''.svelte'', ''svelte'')]"

definition detect_language :: "string \<Rightarrow> string option" where
  "detect_language path =
     (if path = [] then None
      else map_option snd (find (\<lambda>(ext, lang). endswith (lower path) ext) LANGUAGE_MAP))"

text \<open>
  The scan keeps the result list and the two cursors \<open>current_file\<close> and
  \<open>current_hunk\<close>. An open file is not yet in the result list and an open hunk is not yet in
  its file, so updating a cursor touches no other object.
\<close>

record parser_state =
  file_diffs :: "FileDiff list"
  current_file :: "FileDiff option"
  current_hunk :: "DiffHunk option"

definition init_state :: parser_state where
  "init_state = \<lparr>file_diffs = [], current_file = None, current_hunk = None\<rparr>"

text \<open>\<open>if current_file and current_hunk: current_file.hunks.append(current_hunk)\<close>
  followed by \<open>if current_file: file_diffs.append(current_file)\<close>; instances of the
  dataclasses are always true.\<close>

definition flush_hunk :: "FileDiff option \<Rightarrow> DiffHunk option \<Rightarrow> FileDiff option" where
  "flush_hunk cf ch =
     (case cf of
        None \<Rightarrow> None
      | Some f \<Rightarrow> (case ch of None \<Rightarrow> Some f | Some h \<Rightarrow> Some (f\<lparr>hunks := hunks f @ [h]\<rparr>)))"

definition flush_file :: "FileDiff list \<Rightarrow> FileDiff option \<Rightarrow> FileDiff list" where
  "flush_file fds cf = (case cf of None \<Rightarrow> fds | Some f \<Rightarrow> fds @ [f])"

definition new_FileDiff :: "string \<Rightarrow> string \<Rightarrow> FileDiff" where
  "new_FileDiff old_p new_p =
     \<lparr>file_path = new_p, old_path = Some old_p, new_path = Some new_p,
      is_new_file = False, is_deleted_file = False, is_renamed = False,
      language = detect_language new_p, hunks = [], additions = 0, deletions = 0\<rparr>"

text \<open>The four metadata patterns, tried in the source's order while a file is open.\<close>

definition metadata_line :: "string \<Rightarrow> FileDiff \<Rightarrow> FileDiff option" where
  "metadata_line line f =
     (if new_file_mode_pattern line then Some (f\<lparr>is_new_file := True\<rparr>)
      else if deleted_file_mode_pattern line then Some (f\<lparr>is_deleted_file := True\<rparr>)
      else (case rename_from_pattern line of
              Some p \<Rightarrow> Some (f\<lparr>old_path := Some p, is_renamed := True\<rparr>)
            | None \<Rightarrow>
                (case rename_to_pattern line of
                   Some p \<Rightarrow> Some (f\<lparr>new_path := Some p, file_path := p\<rparr>)
                 | None \<Rightarrow> None)))"

definition opt_int :: "string option \<Rightarrow> error + int" where
  "opt_int g = (case g of None \<Rightarrow> Inr 1 | Some s \<Rightarrow> (if s = [] then Inr 1 else py_int s))"

definition new_DiffHunk ::
  "string \<times> string option \<times> string \<times> string option \<times> string \<Rightarrow> error + DiffHunk" where
  "new_DiffHunk groups =
     (case groups of (g1, g2, g3, g4, g5) \<Rightarrow>
        bind_err (py_int g1) (\<lambda>os.
        bind_err (opt_int g2) (\<lambda>oc.
        bind_err (py_int g3) (\<lambda>ns.
        bind_err (opt_int g4) (\<lambda>nc.
          Inr \<lparr>old_start = os, old_count = oc, new_start = ns, new_count = nc,
               header = strip g5, lines = []\<rparr>)))))"

definition count_new :: "ChangedLine list \<Rightarrow> nat" where
  "count_new ls =
     length (filter (\<lambda>l. change_type l = ''addition'' \<or> change_type l = ''context'') ls)"

definition count_old :: "ChangedLine list \<Rightarrow> nat" where
  "count_old ls =
     length (filter (\<lambda>l. change_type l = ''deletion'' \<or> change_type l = ''context'') ls)"

text \<open>The classification of a content line; \<open>not_last\<close> is \<open>i < len(lines) - 1\<close>.\<close>

definition content_line :: "string \<Rightarrow> bool \<Rightarrow> DiffHunk \<Rightarrow> FileDiff \<Rightarrow> DiffHunk \<times> FileDiff" where
  "content_line line not_last h f =
     (if startswith line ''+'' \<and> \<not> startswith line ''+++'' then
        (h\<lparr>lines := lines h @
             [\<lparr>line_number = new_start h + int (count_new (lines h)), content = drop 1 line,
               change_type = ''addition'', original_line_number = None\<rparr>]\<rparr>,
         f\<lparr>additions := additions f + 1\<rparr>)
      else if startswith line ''-'' \<and> \<not> startswith line ''---'' then
        (h\<lparr>lines := lines h @
             [\<lparr>line_number = old_start h + int (count_old (lines h)), content = drop 1 line,
               change_type = ''deletion'',
               original_line_number = Some (old_start h + int (count_old (lines h)))\<rparr>]\<rparr>,
         f\<lparr>deletions := deletions f + 1\<rparr>)
      else if startswith line '' '' \<or> (line = [] \<and> not_last) then
        (h\<lparr>lines := lines h @
             [\<lparr>line_number = new_start h + int (count_new (lines h)),
               content = (if startswith line '' '' then drop 1 line else line),
               change_type = ''context'',
               original_line_number = Some (old_start h + int (count_old (lines h)))\<rparr>]\<rparr>,
         f)
      else (h, f))"

text \<open>One iteration of the \<open>while\<close> loop of \<open>parse\<close>.\<close>

definition parse_line :: "string \<Rightarrow> bool \<Rightarrow> parser_state \<Rightarrow> error + parser_state" where
  "parse_line line not_last st =
     (case file_header_pattern line of
        Some (old_p, new_p) \<Rightarrow>
          Inr \<lparr>file_diffs =
                 flush_file (file_diffs st) (flush_hunk (current_file st) (current_hunk st)),
               current_file = Some (new_FileDiff old_p new_p),
               current_hunk = None\<rparr>
      | None \<Rightarrow>
          (case (case current_file st of None \<Rightarrow> None | Some f \<Rightarrow> metadata_line line f) of
             Some f' \<Rightarrow> Inr (st\<lparr>current_file := Some f'\<rparr>)
           | None \<Rightarrow>
               (case (hunk_header_pattern line, current_file st) of
                  (Some groups, Some f) \<Rightarrow>
                    bind_err (new_DiffHunk groups) (\<lambda>h.
                      Inr (st\<lparr>current_file := flush_hunk (Some f) (current_hunk st),
                              current_hunk := Some h\<rparr>))
                | _ \<Rightarrow>
                    (case (current_hunk st, current_file st) of
                       (Some h, Some f) \<Rightarrow>
                         (case content_line line not_last h f of
                            (h', f') \<Rightarrow>
                              Inr (st\<lparr>current_file := Some f', current_hunk := Some h'\<rparr>))
                     | _ \<Rightarrow> Inr st))))"

fun parse_loop :: "string list \<Rightarrow> parser_state \<Rightarrow> error + parser_state" where
  "parse_loop [] st = Inr st"
| "parse_loop (l # ls) st =
     (case parse_line l (ls \<noteq> []) st of
        Inl e \<Rightarrow> Inl e
      | Inr st' \<Rightarrow> parse_loop ls st')"

definition finish :: "parser_state \<Rightarrow> FileDiff list" where
  "finish st = flush_file (file_diffs st) (flush_hunk (current_file st) (current_hunk st))"

definition parse :: "string \<Rightarrow> error + FileDiff list" where
  "parse diff_text =
     (if diff_text = [] \<or> strip diff_text = [] then Inr []
      else (case parse_loop (split_nl diff_text) init_state of
              Inl e \<Rightarrow> Inl e
            | Inr st \<Rightarrow> Inr (finish st)))"

section \<open>Analyzers (app/agents/base\_agent.py)\<close>

text \<open>
  A dictionary whose keys the code fixes when it builds it is a record; a dictionary read
  with \<open>.get(key, default)\<close> is an association list, so that a missing key is a case of
  the model. Values are \<open>None\<close>, strings and integers.
\<close>

datatype pyval = PyNone | PyStr string | PyInt int

type_synonym pydict = "(string \<times> pyval) list"

definition dict_get :: "pydict \<Rightarrow> string \<Rightarrow> pyval \<Rightarrow> pyval" where
  "dict_get d k dflt = (case map_of d k of None \<Rightarrow> dflt | Some v \<Rightarrow> v)"

definition dict_index :: "(string \<times> nat) list \<Rightarrow> string \<Rightarrow> error + nat" where
  "dict_index d k = (case map_of d k of None \<Rightarrow> Inl (KeyError k) | Some v \<Rightarrow> Inr v)"

record AgentFinding =
  af_file_path :: string
  af_line_number :: "int option"
  af_line_range_start :: "int option"
  af_line_range_end :: "int option"
  af_category :: string
  af_severity :: string
  af_title :: string
  af_description :: string
  af_original_code :: "string option"
  af_suggested_code :: "string option"
  af_agent_name :: "string option"

record code_context =
  ctx_file_path :: string
  ctx_language :: "string option"
  ctx_is_new_file :: bool
  ctx_is_deleted_file :: bool
  ctx_additions :: "(int \<times> string) list"
  ctx_diff_content :: string

text \<open>The result dictionary of one analyzer on one file; the elapsed time, a reading of the
  wall clock, is left out.\<close>

record agent_result =
  agent_name :: string
  result_findings :: "pydict list"
  result_error :: "string option"

text \<open>
  A registered analyzer is an instance of a subclass of \<open>BaseReviewAgent\<close>: its name and
  its \<open>analyze\<close> method, which returns findings or raises an exception \<open>e\<close>
  (\<open>Inl (str e)\<close>). No subclass overrides \<open>run\<close>.
\<close>

record agent =
  name :: string
  analyze :: "code_context \<Rightarrow> string + AgentFinding list"

definition opt_PyInt :: "int option \<Rightarrow> pyval" where
  "opt_PyInt v = (case v of None \<Rightarrow> PyNone | Some i \<Rightarrow> PyInt i)"

definition opt_PyStr :: "string option \<Rightarrow> pyval" where
  "opt_PyStr v = (case v of None \<Rightarrow> PyNone | Some s \<Rightarrow> PyStr s)"

definition finding_dict :: "AgentFinding \<Rightarrow> pydict" where
  "finding_dict f =
     [(''file_path'', PyStr (af_file_path f)),
      (''line_number'', opt_PyInt (af_line_number f)),
      (''line_range_start'', opt_PyInt (af_line_range_start f)),
      (''line_range_end'', opt_PyInt (af_line_range_end f)),
      (''category'', PyStr (af_category f)),
      (''severity'', PyStr (af_severity f)),
      (''title'', PyStr (af_title f)),
      (''description'', PyStr (af_description f)),
      (''original_code'', opt_PyStr (af_original_code f)),
      (''suggested_code'', opt_PyStr (af_suggested_code f)),
      (''agent_name'', opt_PyStr (af_agent_name f))]"

text \<open>\<open>BaseReviewAgent.run\<close>: the whole body is inside \<open>try\<close>, so it returns in both
  cases. The sum type keeps the call site's \<open>try\<close>/\<open>except\<close> a branch of the model.\<close>

definition run :: "agent \<Rightarrow> code_context \<Rightarrow> string + agent_result" where
  "run a c =
     (case analyze a c of
        Inr fs \<Rightarrow>
          Inr \<lparr>agent_name = name a, result_findings = map finding_dict fs,
               result_error = None\<rparr>
      | Inl e \<Rightarrow>
          Inr \<lparr>agent_name = name a, result_findings = [], result_error = Some e\<rparr>)"

section \<open>The orchestrator (app/orchestrator/review\_orchestrator.py)\<close>

text \<open>\<open>str(n)\<close> for the integers of a hunk header.\<close>

fun str_nat :: "nat \<Rightarrow> string" where
  "str_nat n =
     (if n < 10 then [''0123456789'' ! n]
      else str_nat (n div 10) @ [''0123456789'' ! (n mod 10)])"

definition str_int :: "int \<Rightarrow> string" where
  "str_int i = (if i < 0 then CHR ''-'' # str_nat (nat (- i)) else str_nat (nat i))"

definition line_prefix :: "string \<Rightarrow> string" where
  "line_prefix ct =
     (if ct = ''addition'' then ''+'' else if ct = ''deletion'' then ''-''
      else if ct = ''context'' then '' '' else '' '')"

definition hunk_text :: "DiffHunk \<Rightarrow> string list" where
  "hunk_text h =
     (''@@ -'' @ str_int (old_start h) @ '','' @ str_int (old_count h) @ '' +'' @
        str_int (new_start h) @ '','' @ str_int (new_count h) @ '' @@ '' @ header h)
     # map (\<lambda>l. line_prefix (change_type l) @ content l) (lines h)"

definition prepare_code_context :: "FileDiff \<Rightarrow> code_context" where
  "prepare_code_context fd =
     \<lparr>ctx_file_path = file_path fd,
      ctx_language = language fd,
      ctx_is_new_file = is_new_file fd,
      ctx_is_deleted_file = is_deleted_file fd,
      ctx_additions =
        map (\<lambda>l. (line_number l, content l))
          (filter (\<lambda>l. change_type l = ''addition'') (concat (map lines (hunks fd)))),
      ctx_diff_content = join_nl (concat (map hunk_text (hunks fd)))\<rparr>"

definition run_agent :: "agent \<Rightarrow> code_context \<Rightarrow> agent_result" where
  "run_agent a c =
     (case run a c of
        Inr r \<Rightarrow> r
      | Inl e \<Rightarrow> \<lparr>agent_name = name a, result_findings = [], result_error = Some e\<rparr>)"

text \<open>
  The loop over the files keeps the two accumulators of \<open>review_diff\<close>, and a trace of the
  analyzer invocations made (analyzer name and context), which the source does not store and
  which is what a statement about dispatch speaks of.
\<close>

record review_state =
  all_findings :: "pydict list"
  agent_results_acc :: "agent_result list"
  calls :: "(string \<times> code_context) list"

definition collect :: "code_context \<Rightarrow> review_state \<Rightarrow> agent \<Rightarrow> review_state" where
  "collect c s a =
     (let result = run_agent a c in
      \<lparr>all_findings = all_findings s @ result_findings result,
       agent_results_acc = agent_results_acc s @ [result],
       calls = calls s @ [(name a, c)]\<rparr>)"

text \<open>
  \<open>as_completed\<close> yields the submitted futures in the order in which they complete. The
  scheduler is a parameter: \<open>t j\<close> is the time at which the \<open>j\<close>-th submitted future
  completes, and the futures come out ordered by it.
\<close>

definition as_completed :: "(nat \<Rightarrow> nat) \<Rightarrow> 'a list \<Rightarrow> 'a list" where
  "as_completed t xs = map snd (sort_key fst (zip (map t [0..<length xs]) xs))"

text \<open>The analyzers of one file. \<open>ThreadPoolExecutor(max_workers=0)\<close> raises
  \<open>ValueError\<close>.\<close>

definition dispatch ::
  "agent list \<Rightarrow> bool \<Rightarrow> (nat \<Rightarrow> nat) \<Rightarrow> code_context \<Rightarrow> review_state
     \<Rightarrow> error + review_state" where
  "dispatch agents parallel t c s =
     (if parallel then
        (if length agents \<le> 0 then Inl (ValueError ''max_workers must be greater than 0'')
         else Inr (foldl (collect c) s (as_completed t agents)))
      else Inr (foldl (collect c) s agents))"

fun review_files ::
  "agent list \<Rightarrow> bool \<Rightarrow> (nat \<Rightarrow> nat \<Rightarrow> nat) \<Rightarrow> nat \<Rightarrow> FileDiff list \<Rightarrow> review_state
     \<Rightarrow> error + review_state" where
  "review_files agents parallel tm i [] s = Inr s"
| "review_files agents parallel tm i (fd # fds) s =
     (if is_deleted_file fd then review_files agents parallel tm (Suc i) fds s
      else
        (let c = prepare_code_context fd in
         if ctx_additions c = [] then review_files agents parallel tm (Suc i) fds s
         else bind_err (dispatch agents parallel (tm i) c s)
                (\<lambda>s'. review_files agents parallel tm (Suc i) fds s')))"

definition severity_order :: "(string \<times> nat) list" where
  "severity_order =
     [(''critical'', 0), (''high'', 1), (''medium'', 2), (''low'', 3), (''info'', 4)]"

text \<open>The sort key \<open>lambda x: severity_order.get(x.get("severity", "info"), 4)\<close>.\<close>

definition severity_key :: "pydict \<Rightarrow> nat" where
  "severity_key x =
     (case dict_get x ''severity'' (PyStr ''info'') of
        PyStr s \<Rightarrow> (case map_of severity_order s of None \<Rightarrow> 4 | Some n \<Rightarrow> n)
      | _ \<Rightarrow> 4)"

record Summary =
  total_issues :: nat
  severity_counts :: "(string \<times> nat) list"
  category_counts :: "(string \<times> nat) list"
  overall_rating :: string

text \<open>\<open>if key in counts: counts[key] += 1\<close>.\<close>

definition count_key :: "(string \<times> nat) list \<Rightarrow> pyval \<Rightarrow> (string \<times> nat) list" where
  "count_key counts v =
     (case v of
        PyStr k \<Rightarrow>
          (case map_of counts k of
             None \<Rightarrow> counts
           | Some n \<Rightarrow> AList.update k (n + 1) counts)
      | _ \<Rightarrow> counts)"

definition tally ::
  "(string \<times> nat) list \<times> (string \<times> nat) list \<Rightarrow> pydict
     \<Rightarrow> (string \<times> nat) list \<times> (string \<times> nat) list" where
  "tally acc finding =
     (case acc of (sc, cc) \<Rightarrow>
        (count_key sc (dict_get finding ''severity'' (PyStr ''info'')),
         count_key cc (dict_get finding ''category'' (PyStr ''code_quality''))))"

definition init_severity_counts :: "(string \<times> nat) list" where
  "init_severity_counts =
     [(''critical'', 0), (''high'', 0), (''medium'', 0), (''low'', 0), (''info'', 0)]"

definition init_category_counts :: "(string \<times> nat) list" where
  "init_category_counts =
     [(''security'', 0), (''performance'', 0), (''logic'', 0), (''code_quality'', 0),
      (''documentation'', 0)]"

definition rate :: "(string \<times> nat) list \<Rightarrow> error + string" where
  "rate sc =
     bind_err (dict_index sc ''critical'') (\<lambda>critical.
       if critical > 0 then Inr ''needs_work''
       else bind_err (dict_index sc ''high'') (\<lambda>high.
         if high > 2 then Inr ''needs_work''
         else if high > 0 then Inr ''changes_requested''
         else bind_err (dict_index sc ''medium'') (\<lambda>medium.
           if medium > 5 then Inr ''changes_requested''
           else if medium > 0 then Inr ''comment''
           else Inr ''approve'')))"

definition generate_summary :: "pydict list \<Rightarrow> error + Summary" where
  "generate_summary fs =
     (case foldl tally (init_severity_counts, init_category_counts) fs of
        (sc, cc) \<Rightarrow>
          bind_err (rate sc) (\<lambda>overall.
            Inr \<lparr>total_issues = length fs, severity_counts = sc, category_counts = cc,
                 overall_rating = overall\<rparr>))"

text \<open>The returned dictionary; a key that one of the two \<open>return\<close> statements leaves out
  is \<open>None\<close>. The elapsed time is left out.\<close>

record review_result =
  success :: bool
  message :: "string option"
  files_reviewed :: nat
  total_additions :: "int option"
  total_deletions :: "int option"
  findings :: "pydict list"
  agent_results :: "agent_result list option"
  summary :: "Summary option"

definition init_review_state :: review_state where
  "init_review_state = \<lparr>all_findings = [], agent_results_acc = [], calls = []\<rparr>"

text \<open>\<open>review_diff\<close>, for the orchestrator whose \<open>self.agents\<close> is \<open>agents\<close>; the second
  component of the result is the trace of invocations.\<close>

definition review_diff ::
  "agent list \<Rightarrow> (nat \<Rightarrow> nat \<Rightarrow> nat) \<Rightarrow> string \<Rightarrow> bool
     \<Rightarrow> error + review_result \<times> (string \<times> code_context) list" where
  "review_diff agents tm diff_content parallel =
     bind_err (parse diff_content) (\<lambda>fds.
       if fds = [] then
         Inr (\<lparr>success = True, message = Some ''No changes to review'', files_reviewed = 0,
               total_additions = None, total_deletions = None, findings = [],
               agent_results = None, summary = None\<rparr>, [])
       else
         bind_err (review_files agents parallel tm 0 fds init_review_state) (\<lambda>s.
           (let sorted_findings = sort_key severity_key (all_findings s) in
            bind_err (generate_summary sorted_findings) (\<lambda>sm.
              Inr (\<lparr>success = True, message = None,
                    files_reviewed = length (filter (\<lambda>f. \<not> is_deleted_file f) fds),
                    total_additions = Some (sum_list (map additions fds)),
                    total_deletions = Some (sum_list (map deletions fds)),
                    findings = sorted_findings,
                    agent_results = Some (agent_results_acc s),
                    summary = Some sm\<rparr>, calls s)))))"

section \<open>Predicates used in the statements\<close>


definition line_numbered :: "DiffHunk \<Rightarrow> nat \<Rightarrow> bool" where
  "line_numbered h k =
     (let l = lines h ! k;
          n = new_start h + int (count_new (take k (lines h)));
          m = old_start h + int (count_old (take k (lines h)))
      in (change_type l = ''addition'' \<and> line_number l = n \<and> original_line_number l = None)
       \<or> (change_type l = ''deletion'' \<and> line_number l = m \<and> original_line_number l = Some m)
       \<or> (change_type l = ''context'' \<and> line_number l = n \<and> original_line_number l = Some m))"

definition line_source :: "string list \<Rightarrow> ChangedLine \<Rightarrow> bool" where
  "line_source ls l =
     ((change_type l = ''addition'' \<and> CHR ''+'' # content l \<in> set ls)
    \<or> (change_type l = ''deletion'' \<and> CHR ''-'' # content l \<in> set ls)
    \<or> (change_type l = ''context'' \<and>
         (CHR '' '' # content l \<in> set ls \<or> (content l = [] \<and> [] \<in> set ls))))"

definition hunk_ok :: "string list \<Rightarrow> DiffHunk \<Rightarrow> bool" where
  "hunk_ok ls h =
     ((\<forall>k<length (lines h). line_numbered h k) \<and> (\<forall>l\<in>set (lines h). line_source ls l))"

definition file_ok :: "string list \<Rightarrow> FileDiff \<Rightarrow> bool" where
  "file_ok ls f =
     ((\<forall>h\<in>set (hunks f). hunk_ok ls h)
      \<and> additions f = int (length (get_additions f))
      \<and> deletions f = int (length (get_deletions f)))"

definition all_ok :: "string list \<Rightarrow> parser_state \<Rightarrow> bool" where
  "all_ok ls st = (\<forall>f\<in>set (finish st). file_ok ls f)"




text \<open>The number of findings of a severity, and the decision table in the words of the
  specification (critical, high and medium counts).\<close>

definition sev_count :: "string \<Rightarrow> pydict list \<Rightarrow> nat" where
  "sev_count k fs =
     length (filter (\<lambda>f. dict_get f ''severity'' (PyStr ''info'') = PyStr k) fs)"

definition rating_table :: "nat \<Rightarrow> nat \<Rightarrow> nat \<Rightarrow> string" where
  "rating_table critical high medium =
     (if critical \<ge> 1 then ''needs_work''
      else if high > 2 then ''needs_work''
      else if high \<ge> 1 \<or> medium > 5 then ''changes_requested''
      else if medium \<ge> 1 then ''comment''
      else ''approve'')"

text \<open>The files that reach the analyzers, and what one analyzer contributes for one context:
  the findings it returns, as dictionaries, or nothing when it raises.\<close>

definition dispatched :: "FileDiff list \<Rightarrow> FileDiff list" where
  "dispatched fds = filter (\<lambda>fd. \<not> is_deleted_file fd \<and> get_additions fd \<noteq> []) fds"

definition contribution :: "agent \<Rightarrow> code_context \<Rightarrow> pydict list" where
  "contribution a c = (case analyze a c of Inl e \<Rightarrow> [] | Inr fs \<Rightarrow> map finding_dict fs)"

definition merged :: "agent list \<Rightarrow> FileDiff list \<Rightarrow> pydict list" where
  "merged agents fds =
     concat (map (\<lambda>fd. concat (map (\<lambda>a. contribution a (prepare_code_context fd)) agents))
               (dispatched fds))"


section \<open>The inputs of the system test (test\_system.py)\<close>

text \<open>A diff of the shape of the one in \<open>test_diff_parser\<close> (one context line, one deletion,
  two additions) and the structure \<open>parse\<close> builds from it.\<close>

definition test_diff :: string where
  "test_diff =
     ''diff --git a/test.py b/test.py'' @ [CHR 0x0A] @
     ''--- a/test.py'' @ [CHR 0x0A] @
     ''+++ b/test.py'' @ [CHR 0x0A] @
     ''@@ -1,3 +1,4 @@'' @ [CHR 0x0A] @
     '' def hello():'' @ [CHR 0x0A] @
     ''-    print(1)'' @ [CHR 0x0A] @
     ''+    print(2)'' @ [CHR 0x0A] @
     ''+    return True'' @ [CHR 0x0A]"

definition test_hunk :: DiffHunk where
  "test_hunk =
     \<lparr>old_start = 1, old_count = 3, new_start = 1, new_count = 4, header = [],
      lines =
        [\<lparr>line_number = 1, content = ''def hello():'', change_type = ''context'',
          original_line_number = Some 1\<rparr>,
         \<lparr>line_number = 2, content = ''    print(1)'', change_type = ''deletion'',
          original_line_number = Some 2\<rparr>,
         \<lparr>line_number = 2, content = ''    print(2)'', change_type = ''addition'',
          original_line_number = None\<rparr>,
         \<lparr>line_number = 3, content = ''    return True'', change_type = ''addition'',
          original_line_number = None\<rparr>]\<rparr>"

definition test_parsed :: FileDiff where
  "test_parsed =
     \<lparr>file_path = ''test.py'', old_path = Some ''test.py'', new_path = Some ''test.py'',
      is_new_file = False, is_deleted_file = False, is_renamed = False,
      language = Some ''python'', hunks = [test_hunk], additions = 2, deletions = 1\<rparr>"

text \<open>Findings that carry a severity and nothing else, and one without the key.\<close>

definition sev_finding :: "string \<Rightarrow> pydict" where
  "sev_finding s = [(''severity'', PyStr s)]"

definition bare_finding :: pydict where
  "bare_finding = [(''title'', PyStr ''no severity'')]"

text \<open>Two analyzers: one reports one high finding on every file, one always raises; and a
  third that reports another high finding.\<close>

definition high_finding :: "string \<Rightarrow> string \<Rightarrow> AgentFinding" where
  "high_finding path who =
     \<lparr>af_file_path = path, af_line_number = None, af_line_range_start = None,
      af_line_range_end = None, af_category = ''security'', af_severity = ''high'',
      af_title = who, af_description = ''reported'', af_original_code = None,
      af_suggested_code = None, af_agent_name = Some who\<rparr>"

definition steady_agent :: agent where
  "steady_agent =
     \<lparr>name = ''steady'', analyze = (\<lambda>c. Inr [high_finding (ctx_file_path c) ''steady''])\<rparr>"


definition raising_agent :: agent where
  "raising_agent = \<lparr>name = ''raising'', analyze = (\<lambda>c. Inl ''boom'')\<rparr>"



section \<open>The parser returns on every input\<close>










section \<open>Whitespace-only input and lines before the first file header\<close>











section \<open>Numbering and counters: an invariant of the scan\<close>

lemma finish_alt:
  "finish st = file_diffs st @
     (case current_file st of None \<Rightarrow> []
      | Some f \<Rightarrow> [case current_hunk st of None \<Rightarrow> f | Some h \<Rightarrow> f\<lparr>hunks := hunks f @ [h]\<rparr>])"
  by (simp add: finish_def flush_file_def flush_hunk_def split: option.splits)

lemma file_ok_cong:
  "hunks f' = hunks f \<Longrightarrow> additions f' = additions f \<Longrightarrow> deletions f' = deletions f
     \<Longrightarrow> file_ok ls f' = file_ok ls f"
  by (simp add: file_ok_def get_additions_def get_deletions_def get_all_changed_lines_def)

lemma file_ok_new: "file_ok ls (new_FileDiff a b)"
  by (simp add: file_ok_def new_FileDiff_def get_additions_def get_deletions_def
        get_all_changed_lines_def)

lemma metadata_line_fields:
  "metadata_line l f = Some f' \<Longrightarrow>
     hunks f' = hunks f \<and> additions f' = additions f \<and> deletions f' = deletions f"
  by (auto simp: metadata_line_def split: if_splits option.splits)

lemma new_DiffHunk_lines: "new_DiffHunk g = Inr h \<Longrightarrow> lines h = []"
  by (auto simp: new_DiffHunk_def bind_err_def split: prod.splits sum.splits)

lemma hunk_ok_empty: "lines h = [] \<Longrightarrow> hunk_ok ls h"
  by (simp add: hunk_ok_def)

lemma file_ok_add_empty_hunk:
  assumes "file_ok ls f" "lines h = []"
  shows "file_ok ls (f\<lparr>hunks := hunks f @ [h]\<rparr>)"
  using assms
  by (auto simp: file_ok_def hunk_ok_empty get_additions_def get_deletions_def
        get_all_changed_lines_def)

lemma startswith_Cons: "startswith l [c] \<Longrightarrow> l = c # drop 1 l"
  by (cases l) (auto simp: startswith_def)

lemma hunk_ok_snoc:
  assumes "hunk_ok ls h" "line_source ls x"
    and "line_numbered (h\<lparr>lines := lines h @ [x]\<rparr>) (length (lines h))"
  shows "hunk_ok ls (h\<lparr>lines := lines h @ [x]\<rparr>)"
proof -
  have "line_numbered (h\<lparr>lines := lines h @ [x]\<rparr>) k" if "k < length (lines h)" for k
  proof -
    from assms(1) that have "line_numbered h k" by (simp add: hunk_ok_def)
    then show ?thesis using that by (simp add: line_numbered_def nth_append)
  qed
  then show ?thesis using assms by (auto simp: hunk_ok_def less_Suc_eq)
qed

lemma content_line_ok:
  assumes ok: "file_ok ls (f\<lparr>hunks := hunks f @ [h]\<rparr>)"
    and l: "l \<in> set ls"
    and c: "content_line l nl h f = (h', f')"
  shows "file_ok ls (f'\<lparr>hunks := hunks f' @ [h']\<rparr>)"
proof -
  from ok have hs: "\<forall>x\<in>set (hunks f). hunk_ok ls x" and h: "hunk_ok ls h"
    by (auto simp: file_ok_def)
  from ok have
    a: "additions f = int (length (filter (\<lambda>l. change_type l = ''addition'')
          (concat (map lines (hunks f)) @ lines h)))" and
    d: "deletions f = int (length (filter (\<lambda>l. change_type l = ''deletion'')
          (concat (map lines (hunks f)) @ lines h)))"
    by (auto simp: file_ok_def get_additions_def get_deletions_def get_all_changed_lines_def)
  consider (add) "startswith l ''+''" "\<not> startswith l ''+++''"
    | (del) "\<not> (startswith l ''+'' \<and> \<not> startswith l ''+++'')"
            "startswith l ''-''" "\<not> startswith l ''---''"
    | (ctx) "\<not> (startswith l ''+'' \<and> \<not> startswith l ''+++'')"
            "\<not> (startswith l ''-'' \<and> \<not> startswith l ''---'')"
            "startswith l '' '' \<or> (l = [] \<and> nl)"
    | (none) "\<not> (startswith l ''+'' \<and> \<not> startswith l ''+++'')"
            "\<not> (startswith l ''-'' \<and> \<not> startswith l ''---'')"
            "\<not> (startswith l '' '' \<or> (l = [] \<and> nl))"
    by blast
  then show ?thesis
  proof cases
    case add
    let ?x = "\<lparr>line_number = new_start h + int (count_new (lines h)), content = drop 1 l,
               change_type = ''addition'', original_line_number = None\<rparr>"
    from c add have h': "h' = h\<lparr>lines := lines h @ [?x]\<rparr>"
      and f': "f' = f\<lparr>additions := additions f + 1\<rparr>"
      by (auto simp: content_line_def)
    have src: "line_source ls ?x"
      using startswith_Cons[OF add(1)] l by (simp add: line_source_def)
    have num: "line_numbered (h\<lparr>lines := lines h @ [?x]\<rparr>) (length (lines h))"
      by (simp add: line_numbered_def)
    have "hunk_ok ls h'" unfolding h' using h src num by (rule hunk_ok_snoc)
    then show ?thesis using hs a d
      by (simp add: file_ok_def h' f' get_additions_def get_deletions_def
            get_all_changed_lines_def)
  next
    case del
    let ?x = "\<lparr>line_number = old_start h + int (count_old (lines h)), content = drop 1 l,
               change_type = ''deletion'',
               original_line_number = Some (old_start h + int (count_old (lines h)))\<rparr>"
    from c del have h': "h' = h\<lparr>lines := lines h @ [?x]\<rparr>"
      and f': "f' = f\<lparr>deletions := deletions f + 1\<rparr>"
      by (auto simp: content_line_def)
    have src: "line_source ls ?x"
      using startswith_Cons[OF del(2)] l by (simp add: line_source_def)
    have num: "line_numbered (h\<lparr>lines := lines h @ [?x]\<rparr>) (length (lines h))"
      by (simp add: line_numbered_def)
    have "hunk_ok ls h'" unfolding h' using h src num by (rule hunk_ok_snoc)
    then show ?thesis using hs a d
      by (simp add: file_ok_def h' f' get_additions_def get_deletions_def
            get_all_changed_lines_def)
  next
    case ctx
    let ?x = "\<lparr>line_number = new_start h + int (count_new (lines h)),
               content = (if startswith l '' '' then drop 1 l else l),
               change_type = ''context'',
               original_line_number = Some (old_start h + int (count_old (lines h)))\<rparr>"
    from c ctx have h': "h' = h\<lparr>lines := lines h @ [?x]\<rparr>" and f': "f' = f"
      by (auto simp: content_line_def)
    have src: "line_source ls ?x"
    proof (cases "startswith l '' ''")
      case True
      then show ?thesis using startswith_Cons[OF True] l by (simp add: line_source_def)
    next
      case False
      with ctx(3) have "l = []" by simp
      with False l show ?thesis by (simp add: line_source_def)
    qed
    have num: "line_numbered (h\<lparr>lines := lines h @ [?x]\<rparr>) (length (lines h))"
      by (simp add: line_numbered_def)
    have "hunk_ok ls h'" unfolding h' using h src num by (rule hunk_ok_snoc)
    then show ?thesis using hs a d
      by (simp add: file_ok_def h' f' get_additions_def get_deletions_def
            get_all_changed_lines_def)
  next
    case none
    with c have "h' = h" "f' = f" by (auto simp: content_line_def)
    with ok show ?thesis by simp
  qed
qed

lemma parse_line_ok:
  assumes ok: "all_ok ls st" and l: "l \<in> set ls" and p: "parse_line l nl st = Inr st'"
  shows "all_ok ls st'"
proof (cases "file_header_pattern l")
  case (Some pq)
  obtain a b where pq: "pq = (a, b)" by (cases pq) auto
  from p Some pq have "finish st' = finish st @ [new_FileDiff a b]"
    by (auto simp: parse_line_def finish_def flush_file_def flush_hunk_def)
  with ok show ?thesis by (auto simp: all_ok_def file_ok_new)
next
  case None
  note hdr = None
  show ?thesis
  proof (cases "current_file st")
    case None
    with hdr p have "st' = st" by (auto simp: parse_line_def split: option.splits)
    with ok show ?thesis by simp
  next
    case (Some f)
    note cf = Some
    let ?fl = "\<lambda>f. case current_hunk st of None \<Rightarrow> f | Some h \<Rightarrow> f\<lparr>hunks := hunks f @ [h]\<rparr>"
    from ok cf have fds: "\<forall>x\<in>set (file_diffs st). file_ok ls x" and fok: "file_ok ls (?fl f)"
      by (auto simp: all_ok_def finish_alt)
    show ?thesis
    proof (cases "metadata_line l f")
      case (Some f')
      with hdr cf p have st': "st' = st\<lparr>current_file := Some f'\<rparr>"
        by (auto simp: parse_line_def)
      have "file_ok ls (?fl f') = file_ok ls (?fl f)"
        by (rule file_ok_cong) (use metadata_line_fields[OF Some] in \<open>auto split: option.splits\<close>)
      with fok fds show ?thesis by (auto simp: all_ok_def finish_alt st')
    next
      case None
      note md = None
      show ?thesis
      proof (cases "hunk_header_pattern l")
        case (Some g)
        with hdr cf md p obtain h where h: "new_DiffHunk g = Inr h"
          and st': "st' = st\<lparr>current_file := flush_hunk (Some f) (current_hunk st),
                             current_hunk := Some h\<rparr>"
          by (auto simp: parse_line_def bind_err_def split: sum.splits)
        have fl: "flush_hunk (Some f) (current_hunk st) = Some (?fl f)"
          by (simp add: flush_hunk_def split: option.splits)
        have "file_ok ls ((?fl f)\<lparr>hunks := hunks (?fl f) @ [h]\<rparr>)"
          using fok new_DiffHunk_lines[OF h] by (rule file_ok_add_empty_hunk)
        with fds show ?thesis by (auto simp: all_ok_def finish_alt st' fl)
      next
        case None
        note hh = None
        show ?thesis
        proof (cases "current_hunk st")
          case None
          with hdr cf md hh p have "st' = st" by (auto simp: parse_line_def)
          with ok show ?thesis by simp
        next
          case (Some h)
          obtain h' f' where c: "content_line l nl h f = (h', f')"
            by (cases "content_line l nl h f") auto
          with hdr cf md hh Some p
          have st': "st' = st\<lparr>current_file := Some f', current_hunk := Some h'\<rparr>"
            by (auto simp: parse_line_def)
          from fok Some have "file_ok ls (f\<lparr>hunks := hunks f @ [h]\<rparr>)" by simp
          from content_line_ok[OF this l c] fds show ?thesis
            by (auto simp: all_ok_def finish_alt st')
        qed
      qed
    qed
  qed
qed

lemma parse_loop_ok:
  assumes "all_ok ls st" "set xs \<subseteq> set ls" "parse_loop xs st = Inr st'"
  shows "all_ok ls st'"
  using assms
proof (induction xs arbitrary: st)
  case Nil
  then show ?case by simp
next
  case (Cons x xs)
  from Cons.prems(3) obtain st1 where s1: "parse_line x (xs \<noteq> []) st = Inr st1"
    and s2: "parse_loop xs st1 = Inr st'"
    by (auto split: sum.splits)
  from Cons.prems have "all_ok ls st1" using parse_line_ok[OF _ _ s1] by auto
  with Cons.IH[OF _ _ s2] Cons.prems(2) show ?case by auto
qed

lemma parse_ok:
  assumes "parse text = Inr fds" "fd \<in> set fds"
  shows "file_ok (split_nl text) fd"
proof (cases "text = [] \<or> strip text = []")
  case True
  with assms show ?thesis by (simp add: parse_def)
next
  case False
  with assms obtain st where st: "parse_loop (split_nl text) init_state = Inr st"
    and fds: "fds = finish st"
    by (auto simp: parse_def split: sum.splits)
  have "all_ok (split_nl text) init_state"
    by (simp add: all_ok_def finish_def init_state_def flush_file_def flush_hunk_def)
  from parse_loop_ok[OF this _ st] assms(2) fds show ?thesis by (auto simp: all_ok_def)
qed

section \<open>The parser: counters, totality and line positions\<close>

lemma parse_test_diff: "parse test_diff = Inr [test_parsed]"
  by code_simp

text \<open>
  C3. In every file that \<open>parse\<close> returns, the counter \<open>additions\<close> is the number of
  lines of kind \<open>addition\<close> in the hunks of that file, and the counter \<open>deletions\<close> the
  number of lines of kind \<open>deletion\<close>.
\<close>

theorem parse_counters:
  assumes "parse diff_text = Inr fds" and "fd \<in> set fds"
  shows "additions fd = int (length (get_additions fd))
       \<and> deletions fd = int (length (get_deletions fd))"
  using parse_ok[OF assms] by (simp add: file_ok_def)

theorem parse_counters_witness:
  "parse test_diff = Inr [test_parsed] \<and> test_parsed \<in> set [test_parsed]
   \<and> additions test_parsed = int (length (get_additions test_parsed))
   \<and> deletions test_parsed = int (length (get_deletions test_parsed))
   \<and> additions test_parsed = 2 \<and> deletions test_parsed = 1"
proof -
  have m: "test_parsed \<in> set [test_parsed]" by simp
  from parse_counters[OF parse_test_diff m] show ?thesis
    by (simp add: parse_test_diff) (simp add: test_parsed_def)
qed





section \<open>Hunk headers and rename lines\<close>















text \<open>
  Rename lines, as the code treats them. A \<open>rename from\<close> line sets \<open>old_path\<close> and \<open>is_renamed\<close>; a
  \<open>rename to\<close> line sets \<open>new_path\<close> and \<open>file_path\<close> and leaves \<open>is_renamed\<close> as it was.
\<close>

lemma metadata_rename_from:
  "p \<noteq> [] \<Longrightarrow>
     metadata_line (''rename from '' @ p) f = Some (f\<lparr>old_path := Some p, is_renamed := True\<rparr>)"
  by (simp add: metadata_line_def new_file_mode_pattern_def deleted_file_mode_pattern_def
        rename_from_pattern_def startswith_def)

lemma metadata_rename_to:
  "p \<noteq> [] \<Longrightarrow>
     metadata_line (''rename to '' @ p) f = Some (f\<lparr>new_path := Some p, file_path := p\<rparr>)"
  by (simp add: metadata_line_def new_file_mode_pattern_def deleted_file_mode_pattern_def
        rename_from_pattern_def rename_to_pattern_def startswith_def)

lemma rename_example:
  "parse (''diff --git a/a.py b/b.py'' @ CHR 0x0A # ''rename from a.py'' @ CHR 0x0A #
            ''rename to b.py'') =
     Inr [\<lparr>file_path = ''b.py'', old_path = Some ''a.py'', new_path = Some ''b.py'',
           is_new_file = False, is_deleted_file = False, is_renamed = True,
           language = Some ''python'', hunks = [], additions = 0, deletions = 0\<rparr>]"
  by code_simp

text \<open>
  C5. The claim has a \<open>rename to\<close> line set \<open>is_renamed\<close>. On a file with a
  \<open>rename to\<close> line and no \<open>rename from\<close> line the parser returns the new path and
  \<open>is_renamed = False\<close>.
\<close>

theorem rename_to_alone_not_renamed:
  "parse (''diff --git a/a.py b/a.py'' @ CHR 0x0A # ''rename to b.py'') =
     Inr [\<lparr>file_path = ''b.py'', old_path = Some ''a.py'', new_path = Some ''b.py'',
           is_new_file = False, is_deleted_file = False, is_renamed = False,
           language = Some ''python'', hunks = [], additions = 0, deletions = 0\<rparr>]"
  by code_simp

section \<open>The summary and its overall rating\<close>

lemma count_key_map_of:
  "map_of (count_key counts v) k =
     (case map_of counts k of None \<Rightarrow> None
      | Some n \<Rightarrow> Some (if v = PyStr k then n + 1 else n))"
proof (cases v)
  case (PyStr s)
  show ?thesis
  proof (cases "map_of counts s")
    case None
    then show ?thesis using PyStr by (auto simp: count_key_def split: option.splits)
  next
    case (Some n)
    then show ?thesis using PyStr
      by (auto simp: count_key_def update_conv' split: option.splits)
  qed
qed (simp_all add: count_key_def split: option.splits)

lemma foldl_tally_counts:
  "map_of (fst (foldl tally (sc, cc) fs)) k =
     map_option (\<lambda>n. n + sev_count k fs) (map_of sc k)"
proof (induction fs arbitrary: sc cc)
  case Nil
  then show ?case by (simp add: sev_count_def option.map_ident)
next
  case (Cons f fs)
  have "tally (sc, cc) f =
          (count_key sc (dict_get f ''severity'' (PyStr ''info'')),
           count_key cc (dict_get f ''category'' (PyStr ''code_quality'')))"
    by (simp add: tally_def)
  then show ?case
    using Cons.IH by (cases "map_of sc k") (simp_all add: count_key_map_of sev_count_def)
qed

lemma dict_index_counts:
  assumes "foldl tally (init_severity_counts, init_category_counts) fs = (sc, cc)"
    and "k \<in> {''critical'', ''high'', ''medium''}"
  shows "dict_index sc k = Inr (sev_count k fs)"
proof -
  have "map_of sc k = map_option (\<lambda>n. n + sev_count k fs) (map_of init_severity_counts k)"
    using foldl_tally_counts[of init_severity_counts init_category_counts fs k] assms(1)
    by simp
  moreover have "map_of init_severity_counts k = Some 0"
    using assms(2) by (auto simp: init_severity_counts_def)
  ultimately show ?thesis by (simp add: dict_index_def)
qed

lemma rate_table:
  assumes "foldl tally (init_severity_counts, init_category_counts) fs = (sc, cc)"
  shows "rate sc = Inr (rating_table (sev_count ''critical'' fs) (sev_count ''high'' fs)
                          (sev_count ''medium'' fs))"
proof -
  have c: "dict_index sc ''critical'' = Inr (sev_count ''critical'' fs)"
    and h: "dict_index sc ''high'' = Inr (sev_count ''high'' fs)"
    and m: "dict_index sc ''medium'' = Inr (sev_count ''medium'' fs)"
    using dict_index_counts[OF assms] by simp_all
  show ?thesis
    unfolding rate_def c h m bind_err_def rating_table_def by auto
qed

lemma generate_summary_rating:
  "\<exists>s. generate_summary fs = Inr s
     \<and> overall_rating s = rating_table (sev_count ''critical'' fs) (sev_count ''high'' fs)
                             (sev_count ''medium'' fs)"
proof -
  obtain sc cc where t: "foldl tally (init_severity_counts, init_category_counts) fs = (sc, cc)"
    by (cases "foldl tally (init_severity_counts, init_category_counts) fs") auto
  show ?thesis
    by (simp add: generate_summary_def t rate_table[OF t] bind_err_def)
qed

text \<open>
  C1. \<open>_generate_summary\<close> returns on every list of findings, and its overall rating is the
  decision table applied to the numbers of critical, high and medium findings: a critical
  finding gives \<open>needs_work\<close>; else more than two high findings give \<open>needs_work\<close>; else a
  high finding or more than five medium findings give \<open>changes_requested\<close>; else a medium
  finding gives \<open>comment\<close>; else \<open>approve\<close>. The six cases of the specification follow.
\<close>

theorem overall_rating_decision_table:
  "\<exists>s. generate_summary fs = Inr s
     \<and> overall_rating s = rating_table (sev_count ''critical'' fs) (sev_count ''high'' fs)
                             (sev_count ''medium'' fs)
     \<and> (fs = [] \<longrightarrow> overall_rating s = ''approve'')
     \<and> (sev_count ''critical'' fs = 0 \<and> sev_count ''high'' fs = 0
          \<and> sev_count ''medium'' fs = 1 \<longrightarrow> overall_rating s = ''comment'')
     \<and> (sev_count ''critical'' fs = 0 \<and> sev_count ''high'' fs = 1
          \<longrightarrow> overall_rating s = ''changes_requested'')
     \<and> (sev_count ''critical'' fs = 0 \<and> sev_count ''high'' fs = 3
          \<longrightarrow> overall_rating s = ''needs_work'')
     \<and> (sev_count ''critical'' fs \<ge> 1 \<longrightarrow> overall_rating s = ''needs_work'')
     \<and> (sev_count ''critical'' fs = 0 \<and> sev_count ''high'' fs = 0
          \<and> sev_count ''medium'' fs = 6 \<longrightarrow> overall_rating s = ''changes_requested'')"
proof -
  from generate_summary_rating[of fs] obtain s where s: "generate_summary fs = Inr s"
    and r: "overall_rating s = rating_table (sev_count ''critical'' fs) (sev_count ''high'' fs)
                             (sev_count ''medium'' fs)"
    by blast
  have e: "sev_count k [] = 0" for k by (simp add: sev_count_def)
  show ?thesis
    by (rule exI[of _ s]) (auto simp: s r rating_table_def e)
qed

theorem overall_rating_decision_table_witness:
  "sev_count ''critical'' [sev_finding ''medium'', sev_finding ''critical'', bare_finding] = 1
   \<and> (\<exists>s. generate_summary [sev_finding ''medium'', sev_finding ''critical'', bare_finding] = Inr s
          \<and> overall_rating s = ''needs_work'')
   \<and> sev_count ''high'' (replicate 3 (sev_finding ''high'')) = 3
   \<and> (\<exists>s. generate_summary (replicate 3 (sev_finding ''high'')) = Inr s
          \<and> overall_rating s = ''needs_work'')
   \<and> sev_count ''medium'' (replicate 6 (sev_finding ''medium'')) = 6
   \<and> (\<exists>s. generate_summary (replicate 6 (sev_finding ''medium'')) = Inr s
          \<and> overall_rating s = ''changes_requested'')
   \<and> (\<exists>s. generate_summary [] = Inr s \<and> overall_rating s = ''approve'')"
proof -
  have a: "sev_count ''critical'' [sev_finding ''medium'', sev_finding ''critical'', bare_finding] = 1"
    by (simp add: sev_count_def sev_finding_def bare_finding_def dict_get_def)
  have b: "sev_count ''high'' (replicate 3 (sev_finding ''high'')) = 3"
    "sev_count ''critical'' (replicate 3 (sev_finding ''high'')) = 0"
    by (simp_all add: sev_count_def sev_finding_def dict_get_def)
  have c: "sev_count ''medium'' (replicate 6 (sev_finding ''medium'')) = 6"
    "sev_count ''high'' (replicate 6 (sev_finding ''medium'')) = 0"
    "sev_count ''critical'' (replicate 6 (sev_finding ''medium'')) = 0"
    by (simp_all add: sev_count_def sev_finding_def dict_get_def)
  from overall_rating_decision_table[of "[sev_finding ''medium'', sev_finding ''critical'', bare_finding]"]
  have 1: "\<exists>s. generate_summary [sev_finding ''medium'', sev_finding ''critical'', bare_finding] = Inr s
          \<and> overall_rating s = ''needs_work''" using a by auto
  from overall_rating_decision_table[of "replicate 3 (sev_finding ''high'')"]
  have 2: "\<exists>s. generate_summary (replicate 3 (sev_finding ''high'')) = Inr s
          \<and> overall_rating s = ''needs_work''" using b by auto
  from overall_rating_decision_table[of "replicate 6 (sev_finding ''medium'')"]
  have 3: "\<exists>s. generate_summary (replicate 6 (sev_finding ''medium'')) = Inr s
          \<and> overall_rating s = ''changes_requested''" using c by auto
  from overall_rating_decision_table[of "[]"]
  have 4: "\<exists>s. generate_summary [] = Inr s \<and> overall_rating s = ''approve''" by auto
  from a b(1) c(1) 1 2 3 4 show ?thesis by blast
qed

section \<open>Dispatch: what the loop over the files collects\<close>

lemma run_agent_contribution: "result_findings (run_agent a c) = contribution a c"
  by (simp add: run_agent_def run_def contribution_def split: sum.splits)

lemma run_agent_name: "agent_name (run_agent a c) = name a"
  by (simp add: run_agent_def run_def split: sum.splits)

lemma foldl_collect:
  "foldl (collect c) s xs =
     \<lparr>all_findings = all_findings s @ concat (map (\<lambda>a. contribution a c) xs),
      agent_results_acc = agent_results_acc s @ map (\<lambda>a. run_agent a c) xs,
      calls = calls s @ map (\<lambda>a. (name a, c)) xs\<rparr>"
  by (induction xs arbitrary: s) (simp_all add: collect_def Let_def run_agent_contribution)

lemma mset_as_completed: "mset (as_completed t xs) = mset xs"
proof -
  have "mset (as_completed t xs) = mset (map snd (zip (map t [0..<length xs]) xs))"
    unfolding as_completed_def by (metis mset_map mset_sort)
  also have "map snd (zip (map t [0..<length xs]) xs) = xs" by (rule map_snd_zip) simp
  finally show ?thesis .
qed

lemma mset_concat_map: "mset (concat (map f xs)) = (\<Sum>x\<in>#mset xs. mset (f x))"
  by (induction xs) simp_all

lemma mset_concat_map_perm:
  "mset xs = mset ys \<Longrightarrow> mset (concat (map f xs)) = mset (concat (map f ys))"
  by (simp add: mset_concat_map)

lemma mset_map_perm: "mset xs = mset ys \<Longrightarrow> mset (map f xs) = mset (map f ys)"
  by (metis mset_map)

lemma dispatch_cases:
  "dispatch agents par t c s =
     (if par \<and> agents = [] then Inl (ValueError ''max_workers must be greater than 0'')
      else Inr (foldl (collect c) s (if par then as_completed t agents else agents)))"
  by (simp add: dispatch_def)

lemma dispatch_order:
  assumes "dispatch agents par t c s = Inr s'"
  shows "\<exists>xs. mset xs = mset agents \<and> s' = foldl (collect c) s xs"
proof (cases par)
  case True
  with assms have "s' = foldl (collect c) s (as_completed t agents)"
    by (auto simp: dispatch_cases split: if_splits)
  then show ?thesis using mset_as_completed by blast
next
  case False
  with assms have "s' = foldl (collect c) s agents" by (simp add: dispatch_cases)
  then show ?thesis by blast
qed

lemma dispatch_mset:
  assumes "dispatch agents par t c s = Inr s'"
  shows "mset (all_findings s') = mset (all_findings s) + mset (concat (map (\<lambda>a. contribution a c) agents))"
    and "mset (agent_results_acc s') = mset (agent_results_acc s) + mset (map (\<lambda>a. run_agent a c) agents)"
    and "mset (calls s') = mset (calls s) + mset (map (\<lambda>a. (name a, c)) agents)"
proof -
  from dispatch_order[OF assms] obtain xs where p: "mset xs = mset agents"
    and s': "s' = foldl (collect c) s xs" by blast
  show "mset (all_findings s') = mset (all_findings s) + mset (concat (map (\<lambda>a. contribution a c) agents))"
    unfolding s' foldl_collect using mset_concat_map_perm[OF p] by simp
  show "mset (agent_results_acc s') = mset (agent_results_acc s) + mset (map (\<lambda>a. run_agent a c) agents)"
    unfolding s' foldl_collect using mset_map_perm[OF p] by simp
  show "mset (calls s') = mset (calls s) + mset (map (\<lambda>a. (name a, c)) agents)"
    unfolding s' foldl_collect using mset_map_perm[OF p] by simp
qed

lemma ctx_additions_empty_iff:
  "ctx_additions (prepare_code_context fd) = [] \<longleftrightarrow> get_additions fd = []"
  by (simp add: prepare_code_context_def get_additions_def get_all_changed_lines_def)

lemma review_files_skip:
  "is_deleted_file fd \<or> get_additions fd = [] \<Longrightarrow>
     review_files agents par tm i (fd # fds) s = review_files agents par tm (Suc i) fds s"
  by (auto simp: Let_def ctx_additions_empty_iff)

lemma review_files_go:
  "\<not> is_deleted_file fd \<Longrightarrow> get_additions fd \<noteq> [] \<Longrightarrow>
     review_files agents par tm i (fd # fds) s =
       bind_err (dispatch agents par (tm i) (prepare_code_context fd) s)
         (\<lambda>s'. review_files agents par tm (Suc i) fds s')"
  by (simp add: Let_def ctx_additions_empty_iff)

lemma review_files_mset:
  assumes "review_files agents par tm i fds s = Inr s'"
  shows "mset (all_findings s') = mset (all_findings s) + mset (merged agents fds)
       \<and> mset (agent_results_acc s') = mset (agent_results_acc s)
            + mset (concat (map (\<lambda>fd. map (\<lambda>a. run_agent a (prepare_code_context fd)) agents)
                              (dispatched fds)))
       \<and> mset (calls s') = mset (calls s)
            + mset (concat (map (\<lambda>fd. map (\<lambda>a. (name a, prepare_code_context fd)) agents)
                              (dispatched fds)))"
  using assms
proof (induction fds arbitrary: i s)
  case Nil
  then show ?case by (simp add: merged_def dispatched_def)
next
  case (Cons fd fds)
  show ?case
  proof (cases "is_deleted_file fd \<or> get_additions fd = []")
    case True
    with Cons.prems have "review_files agents par tm (Suc i) fds s = Inr s'"
      by (simp add: review_files_skip del: review_files.simps)
    from Cons.IH[OF this] True show ?thesis
      by (auto simp: merged_def dispatched_def)
  next
    case False
    with Cons.prems obtain s1 where
      d: "dispatch agents par (tm i) (prepare_code_context fd) s = Inr s1" and
      r: "review_files agents par tm (Suc i) fds s1 = Inr s'"
      by (auto simp: review_files_go bind_err_def simp del: review_files.simps split: sum.splits)
    from Cons.IH[OF r] dispatch_mset[OF d] False show ?thesis
      by (simp add: merged_def dispatched_def add.assoc)
  qed
qed

lemma review_files_returns:
  assumes "\<not> par \<or> agents \<noteq> [] \<or> dispatched fds = []"
  shows "\<exists>s'. review_files agents par tm i fds s = Inr s'"
  using assms
proof (induction fds arbitrary: i s)
  case Nil
  then show ?case by simp
next
  case (Cons fd fds)
  show ?case
  proof (cases "is_deleted_file fd \<or> get_additions fd = []")
    case True
    with Cons.prems have "\<not> par \<or> agents \<noteq> [] \<or> dispatched fds = []"
      by (auto simp: dispatched_def)
    from Cons.IH[OF this] True show ?thesis
      by (simp add: review_files_skip del: review_files.simps)
  next
    case False
    with Cons.prems have na: "\<not> par \<or> agents \<noteq> []" by (auto simp: dispatched_def)
    then have 1: "\<not> par \<or> agents \<noteq> [] \<or> dispatched fds = []" by blast
    from na obtain s1 where d: "dispatch agents par (tm i) (prepare_code_context fd) s = Inr s1"
      by (auto simp: dispatch_cases)
    from Cons.IH[OF 1, of "Suc i" s1] False d show ?thesis
      by (simp add: review_files_go bind_err_def del: review_files.simps)
  qed
qed


section \<open>The result of review\_diff\<close>

lemma generate_summary_returns: "\<exists>sm. generate_summary fs = Inr sm"
  using generate_summary_rating[of fs] by blast

lemma review_diff_empty:
  assumes "parse text = Inr []"
  shows "review_diff agents tm text par =
           Inr (\<lparr>success = True, message = Some ''No changes to review'', files_reviewed = 0,
                 total_additions = None, total_deletions = None, findings = [],
                 agent_results = None, summary = None\<rparr>, [])"
  by (simp add: review_diff_def assms bind_err_def)

lemma review_diff_nonempty:
  assumes "parse text = Inr fds" "fds \<noteq> []"
    and "review_files agents par tm 0 fds init_review_state = Inr s"
  shows "\<exists>sm. review_diff agents tm text par =
           Inr (\<lparr>success = True, message = None,
                 files_reviewed = length (filter (\<lambda>f. \<not> is_deleted_file f) fds),
                 total_additions = Some (sum_list (map additions fds)),
                 total_deletions = Some (sum_list (map deletions fds)),
                 findings = sort_key severity_key (all_findings s),
                 agent_results = Some (agent_results_acc s),
                 summary = Some sm\<rparr>, calls s)"
proof -
  obtain sm where "generate_summary (sort_key severity_key (all_findings s)) = Inr sm"
    using generate_summary_returns by blast
  then show ?thesis
    by (simp add: review_diff_def assms bind_err_def Let_def)
qed

lemma review_diff_error:
  assumes "parse text = Inr fds" "fds \<noteq> []"
    and "review_files agents par tm 0 fds init_review_state = Inl e"
  shows "review_diff agents tm text par = Inl e"
  by (simp add: review_diff_def assms bind_err_def)





section \<open>Sorting, dispatch and totals\<close>

lemma dispatched_test_parsed: "dispatched [test_parsed] = [test_parsed]"
  by (simp add: dispatched_def test_parsed_def test_hunk_def get_additions_def
        get_all_changed_lines_def)

lemma ctx_file_path_prepare: "ctx_file_path (prepare_code_context fd) = file_path fd"
  by (simp add: prepare_code_context_def)


lemma merged_test:
  "merged [steady_agent, raising_agent] [test_parsed]
     = [finding_dict (high_finding ''test.py'' ''steady'')]"
  by (simp add: merged_def dispatched_test_parsed contribution_def steady_agent_def
        raising_agent_def ctx_file_path_prepare)
     (simp add: test_parsed_def)




section \<open>An analyzer that raises\<close>

lemma run_raises:
  "analyze a c = Inl msg \<Longrightarrow>
     run a c = Inr \<lparr>agent_name = name a, result_findings = [], result_error = Some msg\<rparr>"
  by (simp add: run_def)

lemma run_agent_raises:
  "analyze a c = Inl msg \<Longrightarrow>
     run_agent a c = \<lparr>agent_name = name a, result_findings = [], result_error = Some msg\<rparr>"
  by (simp add: run_agent_def run_def)

lemma review_diff_merged:
  assumes "parse text = Inr fds" and "review_diff agents tm text par = Inr (r, log)"
  shows "mset (findings r) = mset (merged agents fds)"
proof (cases "fds = []")
  case True
  with assms show ?thesis by (auto simp: review_diff_empty merged_def dispatched_def)
next
  case False
  from assms(2) obtain s where s: "review_files agents par tm 0 fds init_review_state = Inr s"
    by (cases "review_files agents par tm 0 fds init_review_state")
       (simp_all add: review_diff_error[OF assms(1) False])
  from review_diff_nonempty[OF assms(1) False s] assms(2)
  have "findings r = sort_key severity_key (all_findings s)" by auto
  with review_files_mset[OF s] show ?thesis by (simp add: init_review_state_def)
qed

text \<open>
  C9. Let an analyzer of the orchestrator raise on the context of a dispatched file. Its
  \<open>run\<close> returns a result with the error string and no finding; \<open>review_diff\<close> returns, its
  analyzer results hold that result, and its findings are, as a multiset, what every
  analyzer contributes on every dispatched file, where an invocation that raises
  contributes nothing and one that returns contributes all of its findings.
\<close>

theorem analyzer_failure_isolated:
  assumes "parse diff_content = Inr fds" and "fd \<in> set fds"
    and "\<not> is_deleted_file fd" and "get_additions fd \<noteq> []"
    and "a \<in> set agents" and "analyze a (prepare_code_context fd) = Inl msg"
  shows "run a (prepare_code_context fd)
           = Inr \<lparr>agent_name = name a, result_findings = [], result_error = Some msg\<rparr>
       \<and> contribution a (prepare_code_context fd) = []
       \<and> (\<forall>b c fs. analyze b c = Inr fs \<longrightarrow> contribution b c = map finding_dict fs)
       \<and> (\<exists>r log rs. review_diff agents tm diff_content par = Inr (r, log)
            \<and> agent_results r = Some rs
            \<and> \<lparr>agent_name = name a, result_findings = [], result_error = Some msg\<rparr> \<in> set rs
            \<and> mset (findings r) = mset (merged agents fds))"
proof -
  let ?c = "prepare_code_context fd"
  let ?e = "\<lparr>agent_name = name a, result_findings = [], result_error = Some msg\<rparr>"
  from assms(2) have ne: "fds \<noteq> []" by auto
  from assms(5) have "\<not> par \<or> agents \<noteq> [] \<or> dispatched fds = []" by auto
  from review_files_returns[OF this] obtain s where
    s: "review_files agents par tm 0 fds init_review_state = Inr s" by blast
  from review_diff_nonempty[OF assms(1) ne s] obtain r log where
    r: "review_diff agents tm diff_content par = Inr (r, log)"
    and ar: "agent_results r = Some (agent_results_acc s)"
    by force
  from assms(2-4) have d: "fd \<in> set (dispatched fds)" by (simp add: dispatched_def)
  from review_files_mset[OF s]
  have "set (agent_results_acc s) =
          set (concat (map (\<lambda>fd. map (\<lambda>a. run_agent a (prepare_code_context fd)) agents)
                              (dispatched fds)))"
    by (intro mset_eq_setD) (simp add: init_review_state_def)
  with d assms(5) have "run_agent a ?c \<in> set (agent_results_acc s)" by auto
  then have m: "?e \<in> set (agent_results_acc s)"
    by (simp add: run_agent_raises[OF assms(6)])
  have 1: "run a ?c = Inr ?e" by (rule run_raises[OF assms(6)])
  have 2: "contribution a ?c = []" by (simp add: contribution_def assms(6))
  have 3: "\<forall>b c fs. analyze b c = Inr fs \<longrightarrow> contribution b c = map finding_dict fs"
    by (simp add: contribution_def)
  from r ar m review_diff_merged[OF assms(1) r] 1 2 3 show ?thesis by blast
qed

theorem analyzer_failure_isolated_witness:
  "parse test_diff = Inr [test_parsed] \<and> test_parsed \<in> set [test_parsed]
   \<and> \<not> is_deleted_file test_parsed \<and> get_additions test_parsed \<noteq> []
   \<and> raising_agent \<in> set [steady_agent, raising_agent]
   \<and> analyze raising_agent (prepare_code_context test_parsed) = Inl ''boom''
   \<and> (\<exists>r log rs. review_diff [steady_agent, raising_agent] (\<lambda>i j. 2 - j) test_diff True
                     = Inr (r, log)
        \<and> agent_results r = Some rs
        \<and> \<lparr>agent_name = ''raising'', result_findings = [], result_error = Some ''boom''\<rparr>
             \<in> set rs
        \<and> findings r = [finding_dict (high_finding ''test.py'' ''steady'')])"
proof -
  have a: "test_parsed \<in> set [test_parsed]" by simp
  have d: "\<not> is_deleted_file test_parsed" "get_additions test_parsed \<noteq> []"
    using dispatched_test_parsed by (auto simp: dispatched_def split: if_splits)
  have g: "raising_agent \<in> set [steady_agent, raising_agent]" by simp
  have e: "analyze raising_agent (prepare_code_context test_parsed) = Inl ''boom''"
    by (simp add: raising_agent_def)
  have n: "name raising_agent = ''raising''" by (simp add: raising_agent_def)
  from analyzer_failure_isolated[OF parse_test_diff a d g e, of "\<lambda>i j. 2 - j" True]
  obtain r log rs where
    r: "review_diff [steady_agent, raising_agent] (\<lambda>i j. 2 - j) test_diff True = Inr (r, log)"
    and rs: "agent_results r = Some rs"
    and m: "\<lparr>agent_name = ''raising'', result_findings = [], result_error = Some ''boom''\<rparr> \<in> set rs"
    and f: "mset (findings r) = mset (merged [steady_agent, raising_agent] [test_parsed])"
    unfolding n by blast
  from f have "findings r = [finding_dict (high_finding ''test.py'' ''steady'')]"
    unfolding merged_test by (simp add: mset_single_iff_right)
  with r rs m parse_test_diff a d g e show ?thesis by blast
qed

section \<open>Concurrent and sequential dispatch\<close>











end
